theory Spec2Isabelle
  imports Main "HOL-Library.Word"
begin

section \<open>The header-field table of cocaine12/tables.go\<close>

text \<open>
  The Go file is a copy of the HPACK tables of golang.org/x/net: a \<open>HeaderField\<close> value
  type, the \<open>headerFieldTable\<close> with its two lookup maps and its eviction counter, and the
  process-wide static table. The embedding keeps the Go names. Go's \<open>uint64\<close> and
  \<open>uint32\<close> are words, so every \<open>+\<close> and \<open>-\<close> below wraps as it does in Go; Go's
  \<open>int\<close> (the type of \<open>len\<close> and of the argument of \<open>evictOldest\<close>) is \<open>int\<close>, with
  its largest value \<open>maxInt\<close> named where a statement needs it. A panic is a value of the
  type \<open>panic\<close>, returned on the left of a sum.
\<close>

type_synonym u64 = "64 word"
type_synonym u32 = "32 word"

subsection \<open>HeaderField\<close>

record HeaderField =
  Name :: string
  Value :: string
  Sensitive :: bool

text \<open>
  \<open>Size\<close>: \<^verbatim>\<open>return uint32(len(hf.Name) + len(hf.Value) + 32)\<close>. The sum is computed in
  Go's 64-bit \<open>int\<close> (two's complement, wrapping) and then converted to \<open>uint32\<close>, which
  keeps the low 32 bits.
\<close>

definition Size :: "HeaderField \<Rightarrow> u32" where
  "Size hf = ucast ((of_nat (length (Name hf)) + of_nat (length (Value hf)) + 32) :: 64 word)"

subsection \<open>headerFieldTable\<close>

type_synonym pairNameValue = "string \<times> string"

record headerFieldTable =
  ents :: "HeaderField list"
  evictCount :: u64
  byName :: "string \<rightharpoonup> u64"
  byNameValue :: "pairNameValue \<rightharpoonup> u64"

datatype panic =
  EvictOldestTooMany int int   \<comment> \<open>\<^verbatim>\<open>panic("evictOldest(n) on table with len entries")\<close>\<close>
| SliceBoundsOutOfRange        \<comment> \<open>the runtime panic of \<^verbatim>\<open>t.ents[n:]\<close> at a negative \<open>n\<close>\<close>
| EvictCountOverflow           \<comment> \<open>\<^verbatim>\<open>panic("evictCount overflow")\<close>\<close>
| IdNotAboveEvictCount u64 u64 \<comment> \<open>\<^verbatim>\<open>panic("id (..) <= evictCount (..)")\<close>\<close>

text \<open>Reading a Go map: a key that is absent reads as the zero value.\<close>

definition mapGet :: "('k \<rightharpoonup> u64) \<Rightarrow> 'k \<Rightarrow> u64" where
  "mapGet m k = (case m k of None \<Rightarrow> 0 | Some v \<Rightarrow> v)"

text \<open>\<open>init\<close> makes the two maps; \<open>emptyTable\<close> is \<^verbatim>\<open>&headerFieldTable{}\<close> after \<open>init\<close>.\<close>

definition init :: "headerFieldTable \<Rightarrow> headerFieldTable" where
  "init t = t\<lparr>byName := Map.empty, byNameValue := Map.empty\<rparr>"

definition emptyTable :: headerFieldTable where
  "emptyTable = init \<lparr>ents = [], evictCount = 0, byName = Map.empty, byNameValue = Map.empty\<rparr>"

definition len :: "headerFieldTable \<Rightarrow> int" where
  "len t = int (length (ents t))"

definition maxInt :: int where
  "maxInt = 2 ^ 63 - 1"

text \<open>
  \<open>addEntry\<close>: the id is computed in \<open>uint64\<close>, both maps are overwritten with it, the
  field is appended. \<open>newId\<close> is the local \<open>id\<close> of the Go function (\<open>uid\<close> below).
\<close>

definition newId :: "headerFieldTable \<Rightarrow> u64" where
  "newId t = of_nat (length (ents t)) + evictCount t + 1"

definition addEntry :: "HeaderField \<Rightarrow> headerFieldTable \<Rightarrow> headerFieldTable" where
  "addEntry f t =
     (let uid = newId t
      in t\<lparr>byName := (byName t)(Name f \<mapsto> uid),
           byNameValue := (byNameValue t)((Name f, Value f) \<mapsto> uid),
           ents := ents t @ [f]\<rparr>)"

text \<open>
  \<open>evictOldest\<close>. The body of the first loop, at position \<open>k\<close>, is \<open>evictStep\<close>; the
  loop itself is \<open>evictLoop\<close>, counting \<open>k\<close> up to \<open>n\<close>. Then the slice is shifted with
  \<open>copy\<close>, its tail is overwritten with zero fields, and it is cut to \<open>len - n\<close>; only
  after that comes the overflow check of the counter.
\<close>

definition evictStep :: "nat \<Rightarrow> headerFieldTable \<Rightarrow> headerFieldTable" where
  "evictStep k t =
     (let f = ents t ! k;
          uid = evictCount t + of_nat k + 1;
          t1 = (if mapGet (byName t) (Name f) = uid
                then t\<lparr>byName := (byName t)(Name f \<mapsto> 0)\<rparr> else t);
          p = (Name f, Value f)
      in if mapGet (byNameValue t1) p = uid
         then t1\<lparr>byNameValue := (byNameValue t1)(p \<mapsto> 0)\<rparr> else t1)"

function evictLoop :: "nat \<Rightarrow> nat \<Rightarrow> headerFieldTable \<Rightarrow> headerFieldTable" where
  "evictLoop k n t = (if k < n then evictLoop (Suc k) n (evictStep k t) else t)"
  by pat_completeness auto
termination
  by (relation "measure (\<lambda>(k, n, t). n - k)") auto

declare evictLoop.simps [simp del]

definition zeroField :: HeaderField where
  "zeroField = \<lparr>Name = [], Value = [], Sensitive = False\<rparr>"

text \<open>\<^verbatim>\<open>copy(dst, src)\<close> overwrites the first \<open>min (len dst) (len src)\<close> elements of \<open>dst\<close>.\<close>

definition copySlice :: "'a list \<Rightarrow> 'a list \<Rightarrow> 'a list" where
  "copySlice dst src = take (length dst) src @ drop (length src) dst"

definition shiftEnts :: "nat \<Rightarrow> HeaderField list \<Rightarrow> HeaderField list" where
  "shiftEnts n es =
     (let copied = copySlice es (drop n es);
          zeroed = take (length es - n) copied @ replicate n zeroField
      in take (length es - n) zeroed)"

definition evictOldest :: "int \<Rightarrow> headerFieldTable \<Rightarrow> panic + headerFieldTable" where
  "evictOldest n t =
     (if n > len t then Inl (EvictOldestTooMany n (len t))
      else if n < 0 then Inl SliceBoundsOutOfRange
      else
        let t1 = evictLoop 0 (nat n) t;
            t2 = t1\<lparr>ents := shiftEnts (nat n) (ents t1)\<rparr>
        in if evictCount t2 + of_int n < evictCount t2 then Inl EvictCountOverflow
           else Inr (t2\<lparr>evictCount := evictCount t2 + of_int n\<rparr>))"

text \<open>
  \<open>idToIndex\<close> and \<open>search\<close>. The Go code compares the receiver with the global pointer
  \<open>staticTable\<close>; the first argument of both functions is the outcome of that comparison
  (\<open>True\<close>: the receiver is the static table).
\<close>

definition idToIndex :: "bool \<Rightarrow> headerFieldTable \<Rightarrow> u64 \<Rightarrow> panic + u64" where
  "idToIndex static t uid =
     (if uid \<le> evictCount t then Inl (IdNotAboveEvictCount uid (evictCount t))
      else
        let k = uid - evictCount t - 1
        in if \<not> static then Inr (of_nat (length (ents t)) - k) else Inr (k + 1))"

definition matched :: "bool \<Rightarrow> panic + u64 \<Rightarrow> panic + (u64 \<times> bool)" where
  "matched nameValueMatch r = (case r of Inl e \<Rightarrow> Inl e | Inr i \<Rightarrow> Inr (i, nameValueMatch))"

definition search :: "bool \<Rightarrow> headerFieldTable \<Rightarrow> HeaderField \<Rightarrow> panic + (u64 \<times> bool)" where
  "search static t f =
     (if \<not> Sensitive f \<and> mapGet (byNameValue t) (Name f, Value f) \<noteq> 0
      then matched True (idToIndex static t (mapGet (byNameValue t) (Name f, Value f)))
      else if mapGet (byName t) (Name f) \<noteq> 0
      then matched False (idToIndex static t (mapGet (byName t) (Name f)))
      else Inr (0, False))"

definition pair :: "string \<Rightarrow> string \<Rightarrow> HeaderField" where
  "pair name val = \<lparr>Name = name, Value = val, Sensitive = False\<rparr>"

subsection \<open>The static table\<close>

text \<open>
  \<open>newStaticTable\<close> calls \<open>addEntry\<close> on a fresh table once for each of the pairs below, in
  this order; \<open>addEntries\<close> is that sequence of calls. The global \<open>staticTable\<close> holds the
  result.
\<close>

fun addEntries :: "HeaderField list \<Rightarrow> headerFieldTable \<Rightarrow> headerFieldTable" where
  "addEntries [] t = t"
| "addEntries (f # fs) t = addEntries fs (addEntry f t)"

definition staticEntries :: "HeaderField list" where
  "staticEntries =
     [pair '':authority'' '''',
      pair '':method'' ''GET'',
      pair '':method'' ''POST'',
      pair '':path'' ''/'',
      pair '':path'' ''/index.html'',
      pair '':scheme'' ''http'',
      pair '':scheme'' ''https'',
      pair '':status'' ''200'',
      pair '':status'' ''204'',
      pair '':status'' ''206'',
      pair '':status'' ''304'',
      pair '':status'' ''400'',
      pair '':status'' ''404'',
      pair '':status'' ''500'',
      pair ''accept-charset'' '''',
      pair ''accept-encoding'' ''gzip, deflate'',
      pair ''accept-language'' '''',
      pair ''accept-ranges'' '''',
      pair ''accept'' '''',
      pair ''access-control-allow-origin'' '''',
      pair ''age'' '''',
      pair ''allow'' '''',
      pair ''authorization'' '''',
      pair ''cache-control'' '''',
      pair ''content-disposition'' '''',
      pair ''content-encoding'' '''',
      pair ''content-language'' '''',
      pair ''content-length'' '''',
      pair ''content-location'' '''',
      pair ''content-range'' '''',
      pair ''content-type'' '''',
      pair ''cookie'' '''',
      pair ''date'' '''',
      pair ''etag'' '''',
      pair ''expect'' '''',
      pair ''expires'' '''',
      pair ''from'' '''',
      pair ''host'' '''',
      pair ''if-match'' '''',
      pair ''if-modified-since'' '''',
      pair ''if-none-match'' '''',
      pair ''if-range'' '''',
      pair ''if-unmodified-since'' '''',
      pair ''last-modified'' '''',
      pair ''link'' '''',
      pair ''location'' '''',
      pair ''max-forwards'' '''',
      pair ''proxy-authenticate'' '''',
      pair ''proxy-authorization'' '''',
      pair ''range'' '''',
      pair ''referer'' '''',
      pair ''refresh'' '''',
      pair ''retry-after'' '''',
      pair ''server'' '''',
      pair ''set-cookie'' '''',
      pair ''strict-transport-security'' '''',
      pair ''transfer-encoding'' '''',
      pair ''user-agent'' '''',
      pair ''vary'' '''',
      pair ''via'' '''',
      pair ''www-authenticate'' '''',
      pair '''' '''',
      pair '''' '''',
      pair '''' '''',
      pair '''' '''',
      pair '''' '''',
      pair '''' '''',
      pair '''' '''',
      pair '''' '''',
      pair '''' '''',
      pair '''' '''',
      pair ''trace_id'' '''',
      pair ''span_id'' '''',
      pair ''parent_id'' '''']"

definition newStaticTable :: headerFieldTable where
  "newStaticTable = addEntries staticEntries emptyTable"

definition staticTable :: headerFieldTable where
  "staticTable = newStaticTable"

subsection \<open>Notions used to state the properties\<close>

text \<open>The ids that successive \<open>addEntry\<close> calls compute, in call order.\<close>

fun assignedIds :: "HeaderField list \<Rightarrow> headerFieldTable \<Rightarrow> u64 list" where
  "assignedIds [] t = []"
| "assignedIds (f # fs) t = newId t # assignedIds fs (addEntry f t)"

text \<open>
  \<open>newestPos P es\<close> is the 1-based position in \<open>es\<close> of the last element that satisfies
  \<open>P\<close>, and 0 when there is none.
\<close>

fun newestPos :: "('a \<Rightarrow> bool) \<Rightarrow> 'a list \<Rightarrow> nat" where
  "newestPos P [] = 0"
| "newestPos P (x # xs) =
     (if newestPos P xs \<noteq> 0 then Suc (newestPos P xs) else if P x then 1 else 0)"

text \<open>
  The table states a caller can produce: a fresh table, then any sequence of \<open>addEntry\<close>
  calls and of \<open>evictOldest\<close> calls that return. A Go slice holds at most \<open>maxInt\<close>
  elements, so \<open>append\<close> is only possible below that length.
\<close>

inductive reachable :: "headerFieldTable \<Rightarrow> bool" where
  fresh: "reachable emptyTable"
| add: "reachable t \<Longrightarrow> len t < maxInt \<Longrightarrow> reachable (addEntry f t)"
| evict: "reachable t \<Longrightarrow> evictOldest n t = Inr t' \<Longrightarrow> reachable t'"

text \<open>
  \<open>wornTable k\<close> is the table after \<open>k\<close> rounds of adding the field \<open>("x", "a")\<close> to an
  empty table and evicting it again.
\<close>

definition wornTable :: "nat \<Rightarrow> headerFieldTable" where
  "wornTable k =
     \<lparr>ents = [], evictCount = of_nat k,
      byName = [''x'' \<mapsto> 0], byNameValue = [(''x'', ''a'') \<mapsto> 0]\<rparr>"

section \<open>Basic facts\<close>

lemma mapGet_empty [simp]: "mapGet Map.empty k = 0"
  by (simp add: mapGet_def)

lemma mapGet_upd [simp]: "mapGet (m(k \<mapsto> v)) k' = (if k' = k then v else mapGet m k')"
  by (simp add: mapGet_def)

lemma ents_addEntry [simp]: "ents (addEntry f t) = ents t @ [f]"
  by (simp add: addEntry_def Let_def)

lemma evictCount_addEntry [simp]: "evictCount (addEntry f t) = evictCount t"
  by (simp add: addEntry_def Let_def)

lemma byName_addEntry [simp]:
  "mapGet (byName (addEntry f t)) x = (if x = Name f then newId t else mapGet (byName t) x)"
  by (simp add: addEntry_def Let_def)

lemma byNameValue_addEntry [simp]:
  "mapGet (byNameValue (addEntry f t)) p =
     (if p = (Name f, Value f) then newId t else mapGet (byNameValue t) p)"
  by (simp add: addEntry_def Let_def)

lemma ents_evictStep [simp]: "ents (evictStep k t) = ents t"
  by (simp add: evictStep_def Let_def)

lemma evictCount_evictStep [simp]: "evictCount (evictStep k t) = evictCount t"
  by (simp add: evictStep_def Let_def)

lemma byName_evictStep:
  "mapGet (byName (evictStep k t)) x =
     (if x = Name (ents t ! k) \<and> mapGet (byName t) x = evictCount t + of_nat k + 1
      then 0 else mapGet (byName t) x)"
  by (auto simp: evictStep_def Let_def)

lemma byNameValue_evictStep:
  "mapGet (byNameValue (evictStep k t)) p =
     (if p = (Name (ents t ! k), Value (ents t ! k))
         \<and> mapGet (byNameValue t) p = evictCount t + of_nat k + 1
      then 0 else mapGet (byNameValue t) p)"
  by (auto simp: evictStep_def Let_def)

lemma ents_evictLoop [simp]: "ents (evictLoop k n t) = ents t"
proof (induction k n t rule: evictLoop.induct)
  case (1 k n t)
  then show ?case by (subst evictLoop.simps) simp
qed

lemma evictCount_evictLoop [simp]: "evictCount (evictLoop k n t) = evictCount t"
proof (induction k n t rule: evictLoop.induct)
  case (1 k n t)
  then show ?case by (subst evictLoop.simps) simp
qed

lemma ex_from_split:
  "k < n \<Longrightarrow> (\<exists>j. k \<le> j \<and> j < n \<and> Q j) \<longleftrightarrow> Q k \<or> (\<exists>j. Suc k \<le> j \<and> j < n \<and> Q j)"
  for k n :: nat
proof
  assume "k < n" and "\<exists>j. k \<le> j \<and> j < n \<and> Q j"
  then obtain j where j: "k \<le> j" "j < n" "Q j" by blast
  show "Q k \<or> (\<exists>j. Suc k \<le> j \<and> j < n \<and> Q j)"
  proof (cases "j = k")
    case True
    with j show ?thesis by simp
  next
    case False
    with j have "Suc k \<le> j" by simp
    with j show ?thesis by blast
  qed
next
  assume "k < n" and "Q k \<or> (\<exists>j. Suc k \<le> j \<and> j < n \<and> Q j)"
  then show "\<exists>j. k \<le> j \<and> j < n \<and> Q j"
    using Suc_leD by blast
qed

lemma byName_evictLoop:
  "mapGet (byName (evictLoop k n t)) x =
     (if \<exists>j. k \<le> j \<and> j < n \<and> x = Name (ents t ! j)
              \<and> mapGet (byName t) x = evictCount t + of_nat j + 1
      then 0 else mapGet (byName t) x)"
proof (induction k n t rule: evictLoop.induct)
  case (1 k n t)
  let ?Q = "\<lambda>t j. x = Name (ents t ! j) \<and> mapGet (byName t) x = evictCount t + of_nat j + 1"
  show ?case
  proof (cases "k < n")
    case False
    then have e: "evictLoop k n t = t" by (subst evictLoop.simps) simp
    from False have ne: "\<not> (\<exists>j. k \<le> j \<and> j < n \<and> ?Q t j)" by auto
    show ?thesis by (simp only: e if_not_P [OF ne])
  next
    case True
    let ?t = "evictStep k t"
    have unfold: "evictLoop k n t = evictLoop (Suc k) n ?t"
      using True by (subst evictLoop.simps) simp
    have IH: "mapGet (byName (evictLoop (Suc k) n ?t)) x =
        (if \<exists>j. Suc k \<le> j \<and> j < n \<and> ?Q ?t j then 0 else mapGet (byName ?t) x)"
      using 1 [OF True] .
    show ?thesis
    proof (cases "?Q t k")
      case here: True
      have "mapGet (byName ?t) x = 0" by (simp only: byName_evictStep if_P [OF here])
      with IH have z: "mapGet (byName (evictLoop (Suc k) n ?t)) x = 0" by simp
      have ex: "\<exists>j. k \<le> j \<and> j < n \<and> ?Q t j" using here True by blast
      show ?thesis unfolding unfold by (simp only: z if_P [OF ex])
    next
      case nothere: False
      have same: "mapGet (byName ?t) x = mapGet (byName t) x"
        by (simp only: byName_evictStep if_not_P [OF nothere])
      have "(\<exists>j. k \<le> j \<and> j < n \<and> ?Q t j) \<longleftrightarrow> (\<exists>j. Suc k \<le> j \<and> j < n \<and> ?Q t j)"
        using ex_from_split [OF True, of "?Q t"] nothere by simp
      then show ?thesis unfolding unfold IH
        by (simp only: ents_evictStep evictCount_evictStep same)
    qed
  qed
qed

lemma byNameValue_evictLoop:
  "mapGet (byNameValue (evictLoop k n t)) p =
     (if \<exists>j. k \<le> j \<and> j < n \<and> p = (Name (ents t ! j), Value (ents t ! j))
              \<and> mapGet (byNameValue t) p = evictCount t + of_nat j + 1
      then 0 else mapGet (byNameValue t) p)"
proof (induction k n t rule: evictLoop.induct)
  case (1 k n t)
  let ?Q = "\<lambda>t j. p = (Name (ents t ! j), Value (ents t ! j)) \<and> mapGet (byNameValue t) p = evictCount t + of_nat j + 1"
  show ?case
  proof (cases "k < n")
    case False
    then have e: "evictLoop k n t = t" by (subst evictLoop.simps) simp
    from False have ne: "\<not> (\<exists>j. k \<le> j \<and> j < n \<and> ?Q t j)" by auto
    show ?thesis by (simp only: e if_not_P [OF ne])
  next
    case True
    let ?t = "evictStep k t"
    have unfold: "evictLoop k n t = evictLoop (Suc k) n ?t"
      using True by (subst evictLoop.simps) simp
    have IH: "mapGet (byNameValue (evictLoop (Suc k) n ?t)) p =
        (if \<exists>j. Suc k \<le> j \<and> j < n \<and> ?Q ?t j then 0 else mapGet (byNameValue ?t) p)"
      using 1 [OF True] .
    show ?thesis
    proof (cases "?Q t k")
      case here: True
      have "mapGet (byNameValue ?t) p = 0" by (simp only: byNameValue_evictStep if_P [OF here])
      with IH have z: "mapGet (byNameValue (evictLoop (Suc k) n ?t)) p = 0" by simp
      have ex: "\<exists>j. k \<le> j \<and> j < n \<and> ?Q t j" using here True by blast
      show ?thesis unfolding unfold by (simp only: z if_P [OF ex])
    next
      case nothere: False
      have same: "mapGet (byNameValue ?t) p = mapGet (byNameValue t) p"
        by (simp only: byNameValue_evictStep if_not_P [OF nothere])
      have "(\<exists>j. k \<le> j \<and> j < n \<and> ?Q t j) \<longleftrightarrow> (\<exists>j. Suc k \<le> j \<and> j < n \<and> ?Q t j)"
        using ex_from_split [OF True, of "?Q t"] nothere by simp
      then show ?thesis unfolding unfold IH
        by (simp only: ents_evictStep evictCount_evictStep same)
    qed
  qed
qed

lemma shiftEnts_drop: "n \<le> length es \<Longrightarrow> shiftEnts n es = drop n es"
  by (simp add: shiftEnts_def copySlice_def Let_def)

lemma unat_Size: "unat (Size f) = (length (Name f) + length (Value f) + 32) mod 2 ^ 32"
proof -
  define s where "s = length (Name f) + length (Value f) + 32"
  have w: "(of_nat (length (Name f)) + of_nat (length (Value f)) + 32 :: 64 word) = of_nat s"
    by (simp add: s_def)
  have "unat (Size f) = take_bit 32 (unat (of_nat s :: 64 word))"
    unfolding Size_def w by (simp only: unsigned_ucast_eq) simp
  also have "\<dots> = (s mod 2 ^ 64) mod 2 ^ 32"
    by (simp only: unat_of_nat take_bit_eq_mod) simp
  also have "\<dots> = s mod 2 ^ 32"
    by (rule mod_mod_cancel) simp
  finally show ?thesis by (simp add: s_def)
qed


section \<open>The size of a field\<close>

text \<open>
  C8. For every field, \<open>Size\<close> is the sum of the two lengths and 32, reduced modulo
  \<open>2 ^ 32\<close>; when the sum is below \<open>2 ^ 32\<close> it is the sum itself. \<open>Size\<close> is a total
  function of the field alone: it has no state to change and no failing branch.
\<close>

theorem Size_law:
  "unat (Size f) = (length (Name f) + length (Value f) + 32) mod 2 ^ 32
   \<and> (length (Name f) + length (Value f) + 32 < 2 ^ 32
        \<longrightarrow> unat (Size f) = length (Name f) + length (Value f) + 32)"
  by (simp add: unat_Size)

theorem Size_law_witness:
  "unat (Size \<lparr>Name = ''content-type'', Value = ''text/html'', Sensitive = False\<rparr>) = 53"
  using Size_law [of "\<lparr>Name = ''content-type'', Value = ''text/html'', Sensitive = False\<rparr>"]
  by simp

end
